theory Spec2Isabelle
  imports Complex_Main "HOL-Library.Word" "HOL-Library.Log_Nat"
begin

section \<open>Chunked upload client: range calculator\<close>

text \<open>
  Go's \<open>int\<close> is taken to be 64 bits wide (amd64, arm64), so \<open>int\<close>, \<open>int64\<close> and
  \<open>uint64\<close> are all \<open>64 word\<close>; \<open>sint\<close> reads a signed value, \<open>uint\<close> an unsigned one,
  and a conversion between them keeps the bits. Go strings are byte sequences, here
  \<open>string\<close>.
\<close>

type_synonym int64 = "64 word"
type_synonym uint64 = "64 word"

subsection \<open>Decimal formatting: \<open>fmt.Sprintf("%v", x)\<close> on integers\<close>

definition digitChar :: "int \<Rightarrow> char" where
  "digitChar d = ''0123456789'' ! nat (d mod 10)"

function formatNat :: "int \<Rightarrow> string" where
  "formatNat n = (if n < 10 then [digitChar n] else formatNat (n div 10) @ [digitChar n])"
  by pat_completeness auto
termination
  by (relation "measure nat") auto

declare formatNat.simps [simp del]

definition formatInt :: "int \<Rightarrow> string" where
  "formatInt i = (if i < 0 then CHR ''-'' # formatNat (- i) else formatNat i)"

text \<open>\<open>%v\<close> of a signed and of an unsigned 64-bit value.\<close>

definition sprintSigned :: "int64 \<Rightarrow> string" where
  "sprintSigned x = formatInt (sint x)"

definition sprintUnsigned :: "uint64 \<Rightarrow> string" where
  "sprintUnsigned x = formatNat (uint x)"

subsection \<open>\<open>generateContentRange\<close> (utils.go)\<close>

text \<open>
  \<open>index\<close> is a \<open>uint64\<close>, \<open>fileChunk\<close> and \<open>partSize\<close> are \<open>int\<close>, \<open>totalSize\<close> is
  \<open>int64\<close>. The products and the comparison \<open>to > uint64(totalSize)\<close> are unsigned and
  wrap modulo \<open>2^64\<close>; \<open><\<close> on words is the unsigned order.
\<close>

definition generateContentRange :: "uint64 \<Rightarrow> int64 \<Rightarrow> int64 \<Rightarrow> int64 \<Rightarrow> string" where
  "generateContentRange index fileChunk partSize totalSize =
     (if index = 0
      then ''bytes 0-'' @ sprintSigned partSize @ ''/'' @ sprintSigned totalSize
      else
        let from = fileChunk * index;
            to0 = fileChunk * (index + 1);
            to = (if totalSize < to0 then totalSize - 1 else to0)
        in ''bytes '' @ sprintUnsigned from @ ''-'' @ sprintUnsigned to @ ''/''
             @ sprintSigned totalSize)"

subsection \<open>Errors and abnormal ends\<close>

datatype error =
    ErrSyntax           \<comment> \<open>\<open>strconv.ErrSyntax\<close>\<close>
  | ErrRange            \<comment> \<open>\<open>strconv.ErrRange\<close>\<close>
  | EOF                 \<comment> \<open>\<open>io.EOF\<close>\<close>
  | ErrUnexpectedEOF    \<comment> \<open>\<open>io.ErrUnexpectedEOF\<close>\<close>
  | ErrOther string     \<comment> \<open>any other error value, by its message\<close>

text \<open>
  A call either returns, or ends in a run-time panic (an index out of range), or reaches
  a conversion whose value the Go specification leaves to the implementation
  (a floating-point value that the integer type cannot hold).
\<close>

datatype 'a exec = Return 'a | Panic | Unspecified

subsection \<open>\<open>strings.Split\<close> with a one-byte separator, \<open>strconv.ParseInt(s, 10, 64)\<close>\<close>

fun Split :: "char \<Rightarrow> string \<Rightarrow> string list" where
  "Split sep [] = [[]]"
| "Split sep (c # cs) =
     (if c = sep then [] # Split sep cs
      else (case Split sep cs of
              [] \<Rightarrow> [[c]]
            | x # xs \<Rightarrow> (c # x) # xs))"

text \<open>Indexing a slice: out of range is a run-time panic.\<close>

definition elemAt :: "'a list \<Rightarrow> nat \<Rightarrow> 'a exec" where
  "elemAt xs i = (if i < length xs then Return (xs ! i) else Panic)"

definition digitVal :: "char \<Rightarrow> int option" where
  "digitVal c =
     (let n = (of_char c :: int) in if 48 \<le> n \<and> n \<le> 57 then Some (n - 48) else None)"

text \<open>
  \<open>ParseUint\<close> in base 10 reads left to right: a byte that is not a decimal digit is a
  syntax error, a value that leaves \<open>uint64\<close> a range error, whichever comes first.
\<close>

fun parseUintLoop :: "int \<Rightarrow> string \<Rightarrow> error + int" where
  "parseUintLoop n [] = Inr n"
| "parseUintLoop n (c # cs) =
     (case digitVal c of
        None \<Rightarrow> Inl ErrSyntax
      | Some d \<Rightarrow>
          if 18446744073709551616 \<le> n * 10 + d then Inl ErrRange
          else parseUintLoop (n * 10 + d) cs)"

definition ParseUint :: "string \<Rightarrow> error + int" where
  "ParseUint s = (if s = [] then Inl ErrSyntax else parseUintLoop 0 s)"

text \<open>
  \<open>ParseInt\<close> takes one leading sign off, parses the rest unsigned and checks the
  signed range: \<open>2^63 = 9223372036854775808\<close>.
\<close>

definition ParseInt :: "string \<Rightarrow> error + int64" where
  "ParseInt s =
     (if s = [] then Inl ErrSyntax
      else
        let neg = (hd s = CHR ''-'');
            s1 = (if hd s = CHR ''+'' \<or> hd s = CHR ''-'' then tl s else s)
        in case ParseUint s1 of
             Inl e \<Rightarrow> Inl e
           | Inr un \<Rightarrow>
               if \<not> neg \<and> 9223372036854775808 \<le> un then Inl ErrRange
               else if neg \<and> 9223372036854775808 < un then Inl ErrRange
               else Inr (if neg then - word_of_int un else word_of_int un))"

subsection \<open>\<open>parseBody\<close> and \<open>calculateTransferredSize\<close> (client.go)\<close>

record UploadStatus =
  Size :: int64
  SizeTransferred :: int64
  Parts :: uint64
  PartsTransferred :: uint64
  IsDone :: bool
  TransferredException :: bool

definition parseBody :: "string \<Rightarrow> (error + int64) exec" where
  "parseBody body =
     (case elemAt (Split CHR ''/'' body) 0 of
        Panic \<Rightarrow> Panic
      | Unspecified \<Rightarrow> Unspecified
      | Return fromTo \<Rightarrow>
          (case elemAt (Split CHR ''-'' fromTo) 1 of
             Panic \<Rightarrow> Panic
           | Unspecified \<Rightarrow> Unspecified
           | Return partTo \<Rightarrow> Return (ParseInt partTo)))"

definition calculateTransferredSize ::
  "string \<Rightarrow> int64 \<Rightarrow> UploadStatus \<Rightarrow> (error + int64) exec" where
  "calculateTransferredSize body partSize status =
     (if body \<noteq> [] then parseBody body
      else
        let result = partSize;
            result = (if sint (Size status) < sint (result + SizeTransferred status)
                      then Size status - SizeTransferred status else result)
        in Return (Inr result))"


section \<open>Chunked upload client: the engine\<close>

subsection \<open>\<open>float64\<close> on the values the engine computes with\<close>

text \<open>
  A finite \<open>float64\<close> is a rational \<open>m * 2^e\<close> with \<open>\<bar>m\<bar> < 2^53\<close>. A conversion from an
  integer and a division round the exact result to the nearest such value, ties to the
  even significand. The exponent range is left out: every nonzero magnitude that arises
  here is a quotient of two 64-bit integers, far inside it.
\<close>

definition roundTiesToEven :: "rat \<Rightarrow> int" where
  "roundTiesToEven x =
     (let f = \<lfloor>x\<rfloor>; r = x - of_int f
      in if r < 1 / 2 then f else if 1 / 2 < r then f + 1 else if even f then f else f + 1)"

text \<open>For \<open>x > 0\<close>, the \<open>e\<close> with \<open>2^e \<le> x < 2^(e+1)\<close>.\<close>

definition binade :: "rat \<Rightarrow> int" where
  "binade x =
     (case quotient_of x of
        (n, d) \<Rightarrow> if 2 powi (bitlen n - bitlen d) \<le> x
                  then bitlen n - bitlen d else bitlen n - bitlen d - 1)"

definition roundPositive :: "rat \<Rightarrow> rat" where
  "roundPositive x = of_int (roundTiesToEven (x / 2 powi (binade x - 52))) * 2 powi (binade x - 52)"

definition roundFloat64 :: "rat \<Rightarrow> rat" where
  "roundFloat64 x =
     (if x = 0 then 0 else if x < 0 then - roundPositive (- x) else roundPositive x)"

text \<open>\<open>float64(x)\<close> of a signed 64-bit integer.\<close>

definition float64 :: "int64 \<Rightarrow> rat" where
  "float64 x = roundFloat64 (of_int (sint x))"

text \<open>
  Division of two finite values; a zero divisor gives an infinity or a NaN, which is no
  rational: \<open>None\<close>.
\<close>

definition floatDiv :: "rat \<Rightarrow> rat \<Rightarrow> rat option" where
  "floatDiv x y = (if y = 0 then None else Some (roundFloat64 (x / y)))"

text \<open>
  \<open>int(f)\<close> and \<open>uint64(f)\<close> drop the fraction; a value the target type cannot hold
  has an implementation-dependent result: \<open>None\<close>.
\<close>

definition dropFraction :: "rat \<Rightarrow> int" where
  "dropFraction x = (if 0 \<le> x then \<lfloor>x\<rfloor> else \<lceil>x\<rceil>)"

definition intOfFloat :: "rat \<Rightarrow> int64 option" where
  "intOfFloat x =
     (if - 9223372036854775808 \<le> dropFraction x \<and> dropFraction x < 9223372036854775808
      then Some (word_of_int (dropFraction x)) else None)"

definition uint64OfFloat :: "rat \<Rightarrow> uint64 option" where
  "uint64OfFloat x =
     (if 0 \<le> dropFraction x \<and> dropFraction x < 18446744073709551616
      then Some (word_of_int (dropFraction x)) else None)"

text \<open>
  \<open>uint64(math.Ceil(float64(c.Status.Size) / float64(c.chunkSize)))\<close> in \<open>Init\<close>; the
  ceiling of a finite \<open>float64\<close> is a \<open>float64\<close>.
\<close>

definition computeParts :: "int64 \<Rightarrow> int64 \<Rightarrow> uint64 option" where
  "computeParts totalSize chunkSize =
     (case floatDiv (float64 totalSize) (float64 chunkSize) of
        None \<Rightarrow> None
      | Some q \<Rightarrow> uint64OfFloat (of_int \<lceil>q\<rceil>))"

text \<open>
  \<open>int(math.Ceil(math.Min(float64(c.chunkSize),
  float64(c.Status.Size-int64(i*uint64(c.chunkSize))))))\<close> in \<open>uploadChunk\<close>; the product
  and the difference wrap.
\<close>

definition computePartSize :: "int64 \<Rightarrow> int64 \<Rightarrow> uint64 \<Rightarrow> int64 option" where
  "computePartSize chunkSize totalSize i =
     intOfFloat (of_int \<lceil>min (float64 chunkSize) (float64 (totalSize - i * chunkSize))\<rceil>)"

subsection \<open>The uploader and the world around it\<close>

type_synonym bytes = "8 word list"
type_synonym header = "(string \<times> string) list"

record UploadData =
  httpMethod :: string
  url :: string
  filePath :: string
  id :: string
  chunkSize :: int64
  Status :: UploadStatus
  additionalHeaders :: "header option"  \<comment> \<open>a map, or \<open>nil\<close>; the pairs in the order \<open>range\<close> visits them\<close>

text \<open>
  A byte source: the bytes still to come, and the error its \<open>Read\<close> returns once they
  are used up (\<open>io.EOF\<close> at a regular end).
\<close>

record reader =
  pending :: bytes
  final :: error

record request =
  reqMethod :: string
  reqURL :: string
  reqHeader :: header     \<comment> \<open>the pairs in the order \<open>Header.Add\<close> appended them\<close>
  reqBody :: bytes

text \<open>
  What \<open>client.Do\<close> and the read of the response body come to: a transport error, a
  status code with a body that could not be read, or a status code with its body.
\<close>

datatype response = DoFailed error | BodyFailed int error | Responded int string

record world =
  stat :: "string \<Rightarrow> error + int64"                   \<comment> \<open>\<open>os.Stat(path)\<close>: an error or the size\<close>
  openFile :: "string \<Rightarrow> error + reader"              \<comment> \<open>\<open>os.Open(path)\<close>\<close>
  stream :: reader                                    \<comment> \<open>the reader behind \<open>c.reader\<close>\<close>
  newRequestError :: "string \<Rightarrow> string \<Rightarrow> error option"  \<comment> \<open>\<open>http.NewRequest\<close> on method and url\<close>
  canonicalKey :: "string \<Rightarrow> string"                  \<comment> \<open>\<open>textproto.CanonicalMIMEHeaderKey\<close>\<close>
  server :: "request list \<Rightarrow> request \<Rightarrow> response"       \<comment> \<open>the answer, given the requests before\<close>
  sent :: "request list"                              \<comment> \<open>the requests handed to \<open>client.Do\<close>\<close>
  attempts :: nat                                     \<comment> \<open>the calls of \<open>httpRequest\<close>\<close>

text \<open>
  \<open>generateSessionID\<close> formats 8 random bytes; the session id is a parameter here. The
  HTTP client, the logger and the open file belong to the world.
\<close>

definition createUploader :: "string \<Rightarrow> string \<Rightarrow> header option \<Rightarrow> int64 \<Rightarrow> string \<Rightarrow> UploadData" where
  "createUploader m u hs chunk sessionID =
     \<lparr>httpMethod = m, url = u, filePath = [], id = sessionID, chunkSize = chunk,
      Status = \<lparr>Size = 0, SizeTransferred = 0, Parts = 0, PartsTransferred = 0,
                IsDone = False, TransferredException = False\<rparr>,
      additionalHeaders = hs\<rparr>"

definition NewUploaderFromReader ::
  "string \<Rightarrow> string \<Rightarrow> int64 \<Rightarrow> header option \<Rightarrow> int64 \<Rightarrow> string \<Rightarrow> UploadData" where
  "NewUploaderFromReader m u totalSize hs chunk sessionID =
     (let uploader = createUploader m u hs chunk sessionID
      in uploader\<lparr>Status := (Status uploader)\<lparr>Size := totalSize\<rparr>\<rparr>)"

definition NewUploaderFromFile ::
  "string \<Rightarrow> string \<Rightarrow> string \<Rightarrow> header option \<Rightarrow> int64 \<Rightarrow> string \<Rightarrow> UploadData" where
  "NewUploaderFromFile m u path hs chunk sessionID =
     (createUploader m u hs chunk sessionID)\<lparr>filePath := path\<rparr>"

definition uploadDone :: "UploadData \<Rightarrow> bool \<Rightarrow> UploadData" where
  "uploadDone c isException =
     c\<lparr>Status := (Status c)\<lparr>IsDone := True, TransferredException := isException\<rparr>\<rparr>"

definition checkError :: "UploadData \<Rightarrow> error option \<Rightarrow> UploadData \<times> bool" where
  "checkError c err = (if err \<noteq> None then uploadDone c True else c, err \<noteq> None)"

subsection \<open>\<open>io.ReadFull\<close>, \<open>filepath.Base\<close>, \<open>httpRequest\<close>\<close>

text \<open>
  \<open>io.ReadFull\<close> into a buffer of \<open>n\<close> bytes: all \<open>n\<close> bytes, or the error of the source,
  \<open>io.ErrUnexpectedEOF\<close> when it ended after some bytes but before \<open>n\<close>.
\<close>

definition ReadFull :: "reader \<Rightarrow> int64 \<Rightarrow> (error + bytes) \<times> reader" where
  "ReadFull r n =
     (if sint n \<le> int (length (pending r))
      then (Inr (take (nat (sint n)) (pending r)), r\<lparr>pending := drop (nat (sint n)) (pending r)\<rparr>)
      else if pending r = [] then (Inl (final r), r)
      else (Inl (if final r = EOF then ErrUnexpectedEOF else final r), r\<lparr>pending := []\<rparr>))"

definition Base :: "string \<Rightarrow> string" where
  "Base path =
     (if path = [] then ''.''
      else
        let stripped = rev (dropWhile (\<lambda>c. c = CHR ''/'') (rev path));
            last_elem = rev (takeWhile (\<lambda>c. c \<noteq> CHR ''/'') (rev stripped))
        in if last_elem = [] then ''/'' else last_elem)"

definition Header_Add :: "world \<Rightarrow> header \<Rightarrow> string \<Rightarrow> string \<Rightarrow> header" where
  "Header_Add w h key val = h @ [(canonicalKey w key, val)]"

definition httpRequest ::
  "world \<Rightarrow> string \<Rightarrow> string \<Rightarrow> header option \<Rightarrow> string \<Rightarrow> bytes \<Rightarrow> string \<Rightarrow> string
     \<Rightarrow> (bool \<times> string \<times> error option) \<times> world" where
  "httpRequest w0 m u addHeaders sessionID part contentRange fileName =
     (let w = w0\<lparr>attempts := Suc (attempts w0)\<rparr>
      in case newRequestError w m u of
           Some err \<Rightarrow> ((False, [], Some err), w)
         | None \<Rightarrow>
             let h = Header_Add w [] ''Content-Type'' ''application/octet-stream'';
                 h = Header_Add w h ''Content-Disposition''
                       (''attachment; filename='' @ [CHR 0x22] @ fileName @ [CHR 0x22]);
                 h = Header_Add w h ''Content-Range'' contentRange;
                 h = Header_Add w h ''Session-ID'' sessionID;
                 h = (case addHeaders of
                        None \<Rightarrow> h
                      | Some kvs \<Rightarrow> foldl (\<lambda>h (key, val). Header_Add w h key val) h kvs);
                 req = \<lparr>reqMethod = m, reqURL = u, reqHeader = h, reqBody = part\<rparr>;
                 w' = w\<lparr>sent := sent w @ [req]\<rparr>
             in case server w (sent w) req of
                  DoFailed err \<Rightarrow> ((False, [], Some err), w')
                | BodyFailed statusCode err \<Rightarrow> ((False, [], Some err), w')
                | Responded statusCode body \<Rightarrow>
                    ((200 \<le> statusCode \<and> statusCode \<le> 299, body, None), w'))"

subsection \<open>The retry loop of \<open>uploadChunk\<close>\<close>

text \<open>
  The loop variables are \<open>isSuccess\<close>, \<open>responseBody\<close> and \<open>errorCount\<close>. The call of
  \<open>httpRequest\<close> in \<open>uploadChunk\<close> names eight arguments, \<open>c.method\<close>, \<open>c.url\<close>,
  \<open>c.client\<close>, \<open>c.id\<close>, \<open>partBuffer\<close>, \<open>contentRange\<close>, \<open>fileName\<close> and the debug logger,
  for the nine parameters of the function: nothing is passed for \<open>additionalHeaders\<close>,
  which is \<open>nil\<close> here.
\<close>

function retryLoop ::
  "UploadData \<Rightarrow> bytes \<Rightarrow> string \<Rightarrow> string \<Rightarrow> bool \<times> string \<times> nat \<Rightarrow> world
     \<Rightarrow> (bool \<times> string \<times> nat) \<times> world" where
  "retryLoop c partBuffer contentRange fileName (isSuccess, responseBody, errorCount) w =
     (if \<not> isSuccess \<and> errorCount < 3
      then
        (case httpRequest w (httpMethod c) (url c) None (id c) partBuffer contentRange fileName of
           ((ok, body, err), w') \<Rightarrow>
             retryLoop c partBuffer contentRange fileName
               (if err \<noteq> None then False else ok, body,
                if \<not> (if err \<noteq> None then False else ok) then errorCount + 1 else errorCount)
               w')
      else ((isSuccess, responseBody, errorCount), w))"
  by pat_completeness auto
termination
  by (relation "measure (\<lambda>(c, p, r, f, (ok, body, n), w). if ok then 0 else Suc (3 - n))") auto

declare retryLoop.simps [simp del]

text \<open>
  An attempt, by what \<open>httpRequest\<close> returned: it failed when \<open>success\<close> is false or
  the error is not \<open>nil\<close>.
\<close>

definition attemptFailed :: "bool \<times> string \<times> error option \<Rightarrow> bool" where
  "attemptFailed r = (\<not> fst r \<or> snd (snd r) \<noteq> None)"

subsection \<open>\<open>uploadChunk\<close>, \<open>uploadFile\<close>, \<open>Init\<close>\<close>

text \<open>A Go result pair \<open>(value, err)\<close> read from a sum: the error, and the value (0 beside an error).\<close>

definition errorOf :: "error + 'a \<Rightarrow> error option" where
  "errorOf res = (case res of Inl e \<Rightarrow> Some e | Inr v \<Rightarrow> None)"

definition valueOf :: "error + int64 \<Rightarrow> int64" where
  "valueOf res = (case res of Inl e \<Rightarrow> 0 | Inr v \<Rightarrow> v)"

definition uploadChunk :: "UploadData \<Rightarrow> world \<Rightarrow> uint64 \<Rightarrow> (UploadData \<times> world) exec" where
  "uploadChunk c w i =
     (if i = Parts (Status c) then Return (uploadDone c False, w)
      else if TransferredException (Status c) then Return (c, w)
      else
        (case computePartSize (chunkSize c) (Size (Status c)) i of
           None \<Rightarrow> Unspecified
         | Some partSize \<Rightarrow>
             if sint partSize \<le> 0 then Return (c, w)
             else
               (case ReadFull (stream w) partSize of
                  (Inl err, r) \<Rightarrow> Return (uploadDone c True, w\<lparr>stream := r\<rparr>)
                | (Inr partBuffer, r) \<Rightarrow>
                    (case retryLoop c partBuffer
                            (generateContentRange i (chunkSize c) partSize (Size (Status c)))
                            (Base (filePath c)) (False, [], 0) (w\<lparr>stream := r\<rparr>) of
                       ((isSuccess, responseBody, errorCount), w') \<Rightarrow>
                         if isSuccess
                         then
                           (case calculateTransferredSize responseBody partSize (Status c) of
                              Panic \<Rightarrow> Panic
                            | Unspecified \<Rightarrow> Unspecified
                            | Return res \<Rightarrow>
                                (case checkError c (errorOf res) of
                                   (c1, failed) \<Rightarrow>
                                     if \<not> failed
                                     then Return
                                       (c1\<lparr>Status := (Status c1)
                                           \<lparr>SizeTransferred := SizeTransferred (Status c1) + valueOf res,
                                            PartsTransferred := i + 1\<rparr>\<rparr>, w')
                                     else Return (c1, w')))
                         else Return (uploadDone c True, w')))))"

text \<open>
  \<open>for !c.Status.IsDone { c.uploadChunk(i); i = i + 1 }\<close>. The loop ends for every
  start: a chunk that leaves \<open>IsDone\<close> false was not the one with index \<open>Parts\<close>, and
  \<open>i\<close> comes one step closer to \<open>Parts\<close>, modulo \<open>2^64\<close>.
\<close>

function uploadFileLoop :: "UploadData \<Rightarrow> world \<Rightarrow> uint64 \<Rightarrow> (UploadData \<times> world) exec" where
  "uploadFileLoop c w i =
     (if IsDone (Status c) then Return (c, w)
      else
        (case uploadChunk c w i of
           Return (c', w') \<Rightarrow> uploadFileLoop c' w' (i + 1)
         | Panic \<Rightarrow> Panic
         | Unspecified \<Rightarrow> Unspecified))"
  by pat_completeness auto
termination
proof (relation "measure (\<lambda>(c, w, i). if IsDone (Status c) then 0
                                       else Suc (unat (Parts (Status c) - i)))", goal_cases)
  case 1
  show ?case by simp
next
  case (2 c w i x c' w')
  then have chunk: "uploadChunk c w i = Return (c', w')"
    by simp
  have parts: "Parts (Status c') = Parts (Status c)"
    using chunk
    by (auto simp: uploadChunk_def uploadDone_def checkError_def
             split: if_splits option.splits prod.splits sum.splits exec.splits)
  have notlast: "\<not> IsDone (Status c') \<Longrightarrow> Parts (Status c) - i \<noteq> 0"
    using chunk
    by (auto simp: uploadChunk_def uploadDone_def split: if_splits)
  have step: "Parts (Status c) - (i + 1) = (Parts (Status c) - i) - 1"
    by simp
  have "unat (Parts (Status c) - (i + 1)) < unat (Parts (Status c) - i)"
    if "\<not> IsDone (Status c')"
    using notlast [OF that] unfolding step
    by (metis One_nat_def diff_less unat_gt_0 unat_minus_one zero_less_one)
  with 2(1) parts show ?case by auto
qed

declare uploadFileLoop.simps [simp del]

definition uploadFile :: "UploadData \<Rightarrow> world \<Rightarrow> (UploadData \<times> world) exec" where
  "uploadFile c w = uploadFileLoop c w 0"

text \<open>
  \<open>Init\<close> returns the uploader, the world and its error value. The deferred \<open>Close\<close>
  closes the file and touches neither the status nor the requests; it is left out.
\<close>

definition Init :: "UploadData \<Rightarrow> world \<Rightarrow> (UploadData \<times> world \<times> error option) exec" where
  "Init c0 w0 =
     (case (if filePath c0 \<noteq> []
            then
              (case stat w0 (filePath c0) of
                 Inl err \<Rightarrow> Inl (fst (checkError c0 (Some err)), err)
               | Inr fileSize \<Rightarrow>
                   (case openFile w0 (filePath c0) of
                      Inl err \<Rightarrow>
                        Inl (fst (checkError (c0\<lparr>Status := (Status c0)\<lparr>Size := fileSize\<rparr>\<rparr>)
                                   (Some err)), err)
                    | Inr file \<Rightarrow>
                        Inr (c0\<lparr>Status := (Status c0)\<lparr>Size := fileSize\<rparr>\<rparr>,
                             w0\<lparr>stream := file\<rparr>)))
            else Inr (c0, w0)) of
        Inl (c, err) \<Rightarrow> Return (c, w0, Some err)
      | Inr (c, w) \<Rightarrow>
          (case computeParts (Size (Status c)) (chunkSize c) of
             None \<Rightarrow> Unspecified
           | Some n \<Rightarrow>
               (case uploadFile (c\<lparr>Status := (Status c)\<lparr>Parts := n\<rparr>\<rparr>) w of
                  Return (c', w') \<Rightarrow> Return (c', w', None)
                | Panic \<Rightarrow> Panic
                | Unspecified \<Rightarrow> Unspecified)))"

subsection \<open>Concrete worlds for the examples\<close>

text \<open>
  A source of \<open>n\<close> zero bytes that ends regularly, and a world around it: no file system
  entry, every method and url accepted by \<open>http.NewRequest\<close>, header keys already in
  canonical form, nothing sent yet.
\<close>

definition zeros :: "nat \<Rightarrow> reader" where
  "zeros n = \<lparr>pending = replicate n 0, final = EOF\<rparr>"

definition worldWith :: "reader \<Rightarrow> (request list \<Rightarrow> request \<Rightarrow> response) \<Rightarrow> world" where
  "worldWith r srv =
     \<lparr>stat = (\<lambda>path. Inl (ErrOther ''no such file'')),
      openFile = (\<lambda>path. Inl (ErrOther ''no such file'')),
      stream = r,
      newRequestError = (\<lambda>m u. None),
      canonicalKey = (\<lambda>key. key),
      server = srv,
      sent = [],
      attempts = 0\<rparr>"

text \<open>
  Servers: one that gives the same answer to every request, and one that gives a first
  answer to the first \<open>n\<close> requests and a second answer from then on.
\<close>

definition always :: "response \<Rightarrow> request list \<Rightarrow> request \<Rightarrow> response" where
  "always answer hist req = answer"

definition firstThen :: "nat \<Rightarrow> response \<Rightarrow> response \<Rightarrow> request list \<Rightarrow> request \<Rightarrow> response" where
  "firstThen n early late hist req = (if length hist < n then early else late)"

text \<open>What a run of \<open>Init\<close> leaves behind, when it returns.\<close>

definition finalStatus :: "(UploadData \<times> world \<times> error option) exec \<Rightarrow> UploadStatus option" where
  "finalStatus r = (case r of Return (c, w, err) \<Rightarrow> Some (Status c) | Panic \<Rightarrow> None | Unspecified \<Rightarrow> None)"

definition sentHeaders :: "(UploadData \<times> world \<times> error option) exec \<Rightarrow> header list option" where
  "sentHeaders r =
     (case r of Return (c, w, err) \<Rightarrow> Some (map reqHeader (sent w)) | Panic \<Rightarrow> None | Unspecified \<Rightarrow> None)"

definition attemptsMade :: "(UploadData \<times> world \<times> error option) exec \<Rightarrow> nat option" where
  "attemptsMade r = (case r of Return (c, w, err) \<Rightarrow> Some (attempts w) | Panic \<Rightarrow> None | Unspecified \<Rightarrow> None)"

definition chunkStatus :: "(UploadData \<times> world) exec \<Rightarrow> UploadStatus option" where
  "chunkStatus r = (case r of Return (c, w) \<Rightarrow> Some (Status c) | Panic \<Rightarrow> None | Unspecified \<Rightarrow> None)"

text \<open>
  An uploader of 100 bytes in one chunk, as \<open>Init\<close> hands it to \<open>uploadFile\<close>; the
  attempt its chunk makes; a world whose server refuses twice and then accepts, one
  whose server always refuses, and a world after its source was read to the end.
\<close>

definition oneChunk :: UploadData where
  "oneChunk =
     \<lparr>httpMethod = ''POST'', url = ''http://host/upload'', filePath = [], id = ''5E551D'',
      chunkSize = 100,
      Status = \<lparr>Size = 100, SizeTransferred = 0, Parts = 1, PartsTransferred = 0,
                IsDone = False, TransferredException = False\<rparr>,
      additionalHeaders = None\<rparr>"

definition attempt :: "world \<Rightarrow> (bool \<times> string \<times> error option) \<times> world" where
  "attempt w = httpRequest w ''POST'' ''http://host/upload'' None ''5E551D'' (replicate 100 0)
                 ''bytes 0-100/100'' ''.''"

definition flaky :: world where
  "flaky = worldWith (zeros 100) (firstThen 2 (Responded 500 []) (Responded 200 []))"

definition refusing :: world where
  "refusing = worldWith (zeros 100) (always (Responded 500 []))"

definition drained :: "world \<Rightarrow> world" where
  "drained w = w\<lparr>stream := \<lparr>pending = [], final = EOF\<rparr>\<rparr>"

text \<open>A world whose file system holds an empty file under every path.\<close>

definition emptyFile :: world where
  "emptyFile =
     (worldWith (zeros 0) (always (Responded 200 [])))
       \<lparr>stat := (\<lambda>path. Inr 0), openFile := (\<lambda>path. Inr (zeros 0))\<rparr>"

definition panics :: "'a exec \<Rightarrow> bool" where
  "panics r = (case r of Return x \<Rightarrow> False | Panic \<Rightarrow> True | Unspecified \<Rightarrow> False)"

section \<open>Properties of the range calculator\<close>

lemma formatInt_nonneg: "0 \<le> i \<Longrightarrow> formatInt i = formatNat i"
  by (simp add: formatInt_def)

lemma sint_pos_uint: "0 < sint (x :: 64 word) \<Longrightarrow> uint x = sint x"
proof -
  assume "0 < sint x"
  moreover have "sint x < 2 ^ 63" using sint_lt [of x] by simp
  ultimately show ?thesis using uint_sint [of x] by (simp add: take_bit_int_eq_self)
qed

text \<open>
  Claim C1, as amended. For a chunk index above 0, a positive chunk size and a positive
  total size, with \<open>chunkSize * (index + 1)\<close> below \<open>2^64\<close>, the content range is
  \<open>bytes {from}-{to}/{total}\<close> with \<open>from = chunkSize * index\<close>; \<open>to\<close> is
  \<open>min(chunkSize * (index + 1), totalSize - 1)\<close>, except that it is \<open>totalSize\<close> itself
  when \<open>chunkSize * (index + 1)\<close> equals \<open>totalSize\<close>: the code caps the end only when it
  is strictly above the total.
\<close>

theorem content_range_later_chunks:
  assumes idx: "i \<noteq> 0"
    and chunk: "0 < sint fileChunk"
    and total: "0 < sint totalSize"
    and room: "sint fileChunk * (uint i + 1) < 2 ^ 64"
  shows "generateContentRange i fileChunk partSize totalSize =
           ''bytes '' @ formatInt (sint fileChunk * uint i) @ ''-''
             @ formatInt (if sint fileChunk * (uint i + 1) = sint totalSize then sint totalSize
                          else min (sint fileChunk * (uint i + 1)) (sint totalSize - 1))
             @ ''/'' @ formatInt (sint totalSize)"
proof -
  have uc: "uint fileChunk = sint fileChunk"
    using chunk by (rule sint_pos_uint)
  have ut: "uint totalSize = sint totalSize"
    using total by (rule sint_pos_uint)
  have i0: "0 \<le> uint i" by simp
  have "uint i + 1 \<le> sint fileChunk * (uint i + 1)"
    using chunk i0 mult_right_mono [of 1 "sint fileChunk" "uint i + 1"] by simp
  with room have i1: "uint i + 1 < 2 ^ 64"
    by linarith
  have u1: "uint (i + 1) = uint i + 1"
    using i1 by (simp add: uint_word_ariths take_bit_int_eq_self)
  have "sint fileChunk * uint i \<le> sint fileChunk * (uint i + 1)"
    using chunk by (intro mult_left_mono) auto
  then have r0: "sint fileChunk * uint i < 2 ^ 64"
    using room by linarith
  have nn: "0 \<le> sint fileChunk * uint i"
    using chunk by simp
  have frm: "uint (fileChunk * i) = sint fileChunk * uint i"
    using r0 nn uc by (simp add: uint_word_ariths take_bit_int_eq_self)
  have nn1: "0 \<le> sint fileChunk * (uint i + 1)"
    using chunk by simp
  have to0: "uint (fileChunk * (i + 1)) = sint fileChunk * (uint i + 1)"
    using room nn1 uc u1 by (simp add: uint_word_ariths take_bit_int_eq_self)
  have tm1: "uint (totalSize - 1) = sint totalSize - 1"
  proof -
    have "sint totalSize < 2 ^ 63" using sint_lt [of totalSize] by simp
    with total ut show ?thesis by (simp add: uint_word_ariths)
  qed
  have lt: "(totalSize < fileChunk * (i + 1)) = (sint totalSize < sint fileChunk * (uint i + 1))"
    by (simp add: word_less_def to0 ut)
  show ?thesis
    using idx total nn nn1
    by (auto simp: generateContentRange_def Let_def sprintUnsigned_def sprintSigned_def
          frm to0 tm1 lt formatInt_nonneg min_def)
qed

theorem content_range_later_chunks_witness:
  "(2 :: uint64) \<noteq> 0 \<and> 0 < sint (100 :: int64) \<and> 0 < sint (250 :: int64)
     \<and> sint (100 :: int64) * (uint (2 :: uint64) + 1) < 2 ^ 64
     \<and> generateContentRange 2 100 50 250 = ''bytes 200-249/250''"
proof -
  have h1: "(2 :: uint64) \<noteq> 0" by simp
  have h2: "0 < sint (100 :: int64)" by simp
  have h3: "0 < sint (250 :: int64)" by simp
  have h4: "sint (100 :: int64) * (uint (2 :: uint64) + 1) < 2 ^ 64" by simp
  have "generateContentRange 2 100 50 250 =
          ''bytes '' @ formatInt (sint (100 :: int64) * uint (2 :: uint64)) @ ''-''
            @ formatInt (if sint (100 :: int64) * (uint (2 :: uint64) + 1) = sint (250 :: int64)
                         then sint (250 :: int64)
                         else min (sint (100 :: int64) * (uint (2 :: uint64) + 1))
                                (sint (250 :: int64) - 1))
            @ ''/'' @ formatInt (sint (250 :: int64))"
    by (rule content_range_later_chunks [OF h1 h2 h3 h4])
  also have "\<dots> = ''bytes 200-249/250''"
    by code_simp
  finally show ?thesis using h1 h2 h3 h4 by blast
qed

text \<open>
  Claim C1 as stated fails where the chunk ends exactly at the total size: for index 1,
  chunk size 100 and total size 200 the code writes the end 200, the claim
  \<open>min(200, 199) = 199\<close>.
\<close>

theorem content_range_later_chunks_counterexample:
  "generateContentRange 1 100 100 200 = ''bytes 100-200/200''
     \<and> generateContentRange 1 100 100 200 \<noteq>
         ''bytes '' @ formatInt (100 * 1) @ ''-'' @ formatInt (min (100 * (1 + 1)) (200 - 1))
           @ ''/'' @ formatInt 200"
  by code_simp

text \<open>
  Claim C9. For index 0 the content range is \<open>bytes 0-{partSize}/{total}\<close>: the declared
  end is the part size itself. For chunk size 100 and total size 250 the engine computes
  the part size 100 for index 0, and the string is \<open>bytes 0-100/250\<close>.
\<close>

theorem content_range_first_chunk:
  "generateContentRange 0 fileChunk partSize totalSize =
     ''bytes 0-'' @ formatInt (sint partSize) @ ''/'' @ formatInt (sint totalSize)
   \<and> computePartSize 100 250 0 = Some 100
   \<and> generateContentRange 0 100 100 250 = ''bytes 0-100/250''"
proof -
  have "computePartSize 100 250 0 = Some 100"
    by code_simp
  moreover have "generateContentRange 0 100 100 250 = ''bytes 0-100/250''"
    by code_simp
  ultimately show ?thesis
    by (simp add: generateContentRange_def sprintSigned_def)
qed

text \<open>
  Claim C4 at the failing input. A response body without \<open>-\<close>, such as \<open>OK\<close>, splits
  into a single piece; \<open>parseBody\<close> reads the second piece, which is an index out of
  range: the reconciliation ends in a run-time panic, not in a parse error.
\<close>

theorem reconciliation_panics_without_separator:
  "parseBody ''OK'' = Panic \<and> calculateTransferredSize ''OK'' partSize status = Panic"
  by (simp add: calculateTransferredSize_def parseBody_def elemAt_def)

text \<open>
  Claim C10. The default delta, the requested part size capped by what is left of the
  total, is returned for the empty body only. A non-empty body is handed to \<open>parseBody\<close>
  whatever it holds, so its result depends on neither the part size nor the status.
\<close>

theorem default_delta_only_for_empty_body:
  "(body \<noteq> [] \<longrightarrow> calculateTransferredSize body partSize status = parseBody body)
   \<and> calculateTransferredSize [] partSize status =
       Return (Inr (if sint (Size status) < sint (partSize + SizeTransferred status)
                    then Size status - SizeTransferred status else partSize))"
  by (simp add: calculateTransferredSize_def)

theorem default_delta_only_for_empty_body_witness:
  "''x-7'' \<noteq> []
   \<and> calculateTransferredSize ''x-7'' 100
        \<lparr>Size = 250, SizeTransferred = 0, Parts = 3, PartsTransferred = 0,
         IsDone = False, TransferredException = False\<rparr> = Return (Inr 7)"
proof -
  have p: "parseBody ''x-7'' = Return (Inr 7)" by code_simp
  show ?thesis
    using default_delta_only_for_empty_body [of "''x-7''" 100
        "\<lparr>Size = 250, SizeTransferred = 0, Parts = 3, PartsTransferred = 0,
          IsDone = False, TransferredException = False\<rparr>"] p
    by simp
qed

section \<open>Properties of the \<open>float64\<close> arithmetic and of the part count\<close>

subsection \<open>Rounding\<close>

lemma roundTiesToEven_of_int [simp]: "roundTiesToEven (of_int k) = k"
  by (simp add: roundTiesToEven_def)

lemma roundTiesToEven_near: "\<bar>of_int (roundTiesToEven m) - m\<bar> \<le> 1 / 2"
proof -
  have "of_int \<lfloor>m\<rfloor> \<le> m" "m < of_int \<lfloor>m\<rfloor> + 1"
    by linarith+
  then show ?thesis
    by (auto simp: roundTiesToEven_def Let_def)
qed

lemma roundTiesToEven_mono_int:
  "of_int k \<le> m \<Longrightarrow> k \<le> roundTiesToEven m"
  "m \<le> of_int k \<Longrightarrow> roundTiesToEven m \<le> k"
proof -
  assume "of_int k \<le> m"
  then have "k \<le> \<lfloor>m\<rfloor>" by (simp add: le_floor_iff)
  then show "k \<le> roundTiesToEven m"
    by (auto simp: roundTiesToEven_def Let_def)
next
  assume le: "m \<le> of_int k"
  show "roundTiesToEven m \<le> k"
  proof (cases "m = of_int k")
    case True
    then show ?thesis by simp
  next
    case False
    with le have "m < of_int k" by simp
    then have "\<lfloor>m\<rfloor> < k" by (simp add: floor_less_iff)
    then show ?thesis
      by (auto simp: roundTiesToEven_def Let_def)
  qed
qed

lemma binade_bounds:
  assumes "0 < x"
  shows "2 powi binade x \<le> x" and "x < 2 powi (binade x + 1)"
proof -
  obtain n d where q: "quotient_of x = (n, d)"
    by (cases "quotient_of x")
  then have d: "0 < d" and x: "x = of_int n / of_int d"
    using quotient_of_denom_pos [OF q] quotient_of_div [OF q] by auto
  with assms have n: "0 < n"
    by (simp add: zero_less_divide_iff)
  let ?e = "bitlen n - bitlen d"
  from bitlen_bounds [OF n] have n1: "(2::int) ^ nat (bitlen n - 1) \<le> n" and n2: "n < 2 ^ nat (bitlen n)"
    by auto
  from bitlen_bounds [OF d] have d1: "(2::int) ^ nat (bitlen d - 1) \<le> d" and d2: "d < 2 ^ nat (bitlen d)"
    by auto
  have bn: "1 \<le> bitlen n" using n by (simp add: bitlen_ge_iff_power)
  have bd: "1 \<le> bitlen d" using d by (simp add: bitlen_ge_iff_power)
  have N1: "(2::rat) powi (bitlen n - 1) \<le> of_int n"
  proof -
    have "(of_int ((2::int) ^ nat (bitlen n - 1)) :: rat) \<le> of_int n"
      using n1 by (simp only: of_int_le_iff)
    then show ?thesis using bn by (simp add: power_int_nonneg_exp)
  qed
  have N2: "(of_int n :: rat) < 2 powi bitlen n"
  proof -
    have "(of_int n :: rat) < of_int ((2::int) ^ nat (bitlen n))"
      using n2 by (simp only: of_int_less_iff)
    then show ?thesis using bn by (simp add: power_int_nonneg_exp)
  qed
  have D1: "(2::rat) powi (bitlen d - 1) \<le> of_int d"
  proof -
    have "(of_int ((2::int) ^ nat (bitlen d - 1)) :: rat) \<le> of_int d"
      using d1 by (simp only: of_int_le_iff)
    then show ?thesis using bd by (simp add: power_int_nonneg_exp)
  qed
  have D2: "(of_int d :: rat) < 2 powi bitlen d"
  proof -
    have "(of_int d :: rat) < of_int ((2::int) ^ nat (bitlen d))"
      using d2 by (simp only: of_int_less_iff)
    then show ?thesis using bd by (simp add: power_int_nonneg_exp)
  qed
  have dpos: "(0::rat) < of_int d" using d by simp
  \<comment> \<open>\<open>2^(e-1) < x < 2^(e+1)\<close>\<close>
  have lower: "(2::rat) powi (?e - 1) < x"
  proof -
    have "(2::rat) powi (?e - 1) * of_int d < 2 powi (?e - 1) * 2 powi bitlen d"
      using D2 by (intro mult_strict_left_mono) auto
    also have "\<dots> = 2 powi (bitlen n - 1)"
      by (simp flip: power_int_add)
    also have "\<dots> \<le> of_int n" by (rule N1)
    finally show ?thesis using dpos by (simp add: x pos_less_divide_eq)
  qed
  have upper: "x < (2::rat) powi (?e + 1)"
  proof -
    have "of_int n < (2::rat) powi bitlen n" by (rule N2)
    also have "\<dots> = 2 powi (?e + 1) * 2 powi (bitlen d - 1)"
      by (simp flip: power_int_add)
    also have "\<dots> \<le> 2 powi (?e + 1) * of_int d"
      using D1 by (intro mult_left_mono) auto
    finally show ?thesis using dpos by (simp add: x pos_divide_less_eq)
  qed
  have b: "binade x = (if 2 powi ?e \<le> x then ?e else ?e - 1)"
    by (simp add: binade_def q)
  show "2 powi binade x \<le> x"
    using lower by (auto simp: b)
  show "x < 2 powi (binade x + 1)"
    using upper by (auto simp: b not_le)
qed

lemma roundPositive_near:
  assumes "0 < x"
  shows "\<bar>roundPositive x - x\<bar> \<le> x / 2 ^ 53"
proof -
  let ?u = "(2::rat) powi (binade x - 52)"
  have u: "0 < ?u" by simp
  have "\<bar>of_int (roundTiesToEven (x / ?u)) - x / ?u\<bar> \<le> 1 / 2"
    by (rule roundTiesToEven_near)
  then have "\<bar>of_int (roundTiesToEven (x / ?u)) - x / ?u\<bar> * ?u \<le> 1 / 2 * ?u"
    using u by (intro mult_right_mono) auto
  moreover have "\<bar>of_int (roundTiesToEven (x / ?u)) - x / ?u\<bar> * ?u = \<bar>roundPositive x - x\<bar>"
  proof -
    have "\<bar>of_int (roundTiesToEven (x / ?u)) - x / ?u\<bar> * ?u
            = \<bar>(of_int (roundTiesToEven (x / ?u)) - x / ?u) * ?u\<bar>"
      using u by (simp add: abs_mult)
    also have "(of_int (roundTiesToEven (x / ?u)) - x / ?u) * ?u = roundPositive x - x"
      using u by (simp add: roundPositive_def left_diff_distrib)
    finally show ?thesis .
  qed
  ultimately have near: "\<bar>roundPositive x - x\<bar> \<le> ?u / 2" by simp
  have "?u = 2 powi binade x / 2 ^ 52"
    by (simp add: power_int_diff)
  also have "\<dots> \<le> x / 2 ^ 52"
    using binade_bounds(1) [OF assms] by (simp add: divide_right_mono)
  finally have "?u / 2 \<le> x / 2 ^ 52 / 2" by simp
  also have "\<dots> = x / 2 ^ 53" by simp
  finally show ?thesis using near by linarith
qed

lemma roundPositive_binade:
  assumes "0 < x"
  shows "2 powi binade x \<le> roundPositive x" and "roundPositive x \<le> 2 powi (binade x + 1)"
proof -
  let ?u = "(2::rat) powi (binade x - 52)"
  have u: "0 < ?u" by simp
  have e: "(2::rat) powi binade x = 2 ^ 52 * ?u"
    by (simp add: power_int_diff)
  have e1: "(2::rat) powi (binade x + 1) = 2 ^ 53 * ?u"
    by (simp add: power_int_diff power_int_add)
  have "2 ^ 52 * ?u \<le> x" using binade_bounds(1) [OF assms] e by simp
  then have "(of_int (2 ^ 52) :: rat) \<le> x / ?u"
    using u by (simp add: pos_le_divide_eq)
  then have "2 ^ 52 \<le> roundTiesToEven (x / ?u)"
    by (rule roundTiesToEven_mono_int)
  then have "(of_int (2 ^ 52) :: rat) \<le> of_int (roundTiesToEven (x / ?u))"
    by (simp only: of_int_le_iff)
  then have "2 ^ 52 * ?u \<le> of_int (roundTiesToEven (x / ?u)) * ?u"
    using u by (intro mult_right_mono) auto
  then show "2 powi binade x \<le> roundPositive x"
    by (simp add: roundPositive_def e)
  have "x \<le> 2 ^ 53 * ?u" using binade_bounds(2) [OF assms] e1 by simp
  then have "x / ?u \<le> (of_int (2 ^ 53) :: rat)"
    using u by (simp add: pos_divide_le_eq)
  then have "roundTiesToEven (x / ?u) \<le> 2 ^ 53"
    by (rule roundTiesToEven_mono_int)
  then have "(of_int (roundTiesToEven (x / ?u)) :: rat) \<le> of_int (2 ^ 53)"
    by (simp only: of_int_le_iff)
  then have "of_int (roundTiesToEven (x / ?u)) * ?u \<le> 2 ^ 53 * ?u"
    using u by (intro mult_right_mono) auto
  then show "roundPositive x \<le> 2 powi (binade x + 1)"
    by (simp add: roundPositive_def e1)
qed

lemma roundPositive_pos: "0 < x \<Longrightarrow> 0 < roundPositive x"
  using roundPositive_binade(1) [of x] zero_less_power_int [of "2::rat" "binade x"]
  by linarith

lemma roundPositive_exact_int:
  assumes "0 < k" "k < 2 ^ 53"
  shows "roundPositive (of_int k) = of_int k"
proof -
  let ?x = "of_int k :: rat"
  have x: "0 < ?x" using assms by simp
  have "(2::rat) powi binade ?x \<le> ?x" by (rule binade_bounds(1) [OF x])
  also have "?x < 2 ^ 53" using assms(2) by (metis of_int_less_iff of_int_numeral of_int_power)
  finally have "(2::rat) powi binade ?x < 2 powi 53" by simp
  then have e: "binade ?x < 53"
    using power_int_le_imp_less_exp [of "2::rat" "binade ?x" 53] by simp
  define j where "j = nat (52 - binade ?x)"
  have u: "(2::rat) powi (binade ?x - 52) = 1 / 2 ^ j"
  proof -
    have "binade ?x - 52 = - int j" using e by (simp add: j_def)
    then show ?thesis by (simp add: power_int_minus_divide)
  qed
  have "?x * 2 ^ j = of_int (k * 2 ^ j)" by simp
  then have "roundTiesToEven (?x * 2 ^ j) = k * 2 ^ j"
    by (simp only: roundTiesToEven_of_int)
  then show ?thesis
    by (simp add: roundPositive_def u)
qed

lemma float64_exact:
  assumes "0 \<le> sint s" "sint s < 2 ^ 53"
  shows "float64 s = of_int (sint s)"
proof (cases "sint s = 0")
  case True
  then show ?thesis by (simp add: float64_def roundFloat64_def del: of_int_sint)
next
  case False
  with assms have "0 < sint s" by simp
  then show ?thesis
    using roundPositive_exact_int [OF _ assms(2)]
    by (simp add: float64_def roundFloat64_def del: of_int_sint)
qed

lemma float64_large:
  assumes "2 ^ 53 \<le> sint s"
  shows "2 ^ 53 \<le> float64 s"
proof -
  let ?x = "of_int (sint s) :: rat"
  have big: "(2::rat) ^ 53 \<le> ?x"
    using assms by (metis of_int_le_iff of_int_numeral of_int_power)
  have "(0::rat) < 2 ^ 53" by simp
  from this big have x: "0 < ?x" by (rule less_le_trans)
  have "53 \<le> binade ?x"
  proof (rule ccontr)
    assume "\<not> 53 \<le> binade ?x"
    then have "binade ?x + 1 \<le> 53" by simp
    then have "(2::rat) powi (binade ?x + 1) \<le> 2 powi 53"
      by (intro power_int_increasing) auto
    with binade_bounds(2) [OF x] have "?x < 2 powi 53" by linarith
    with big show False by simp
  qed
  then have "(2::rat) powi 53 \<le> 2 powi binade ?x"
    by (intro power_int_increasing) auto
  also have "\<dots> \<le> roundPositive ?x" by (rule roundPositive_binade(1) [OF x])
  finally show ?thesis using x by (simp add: float64_def roundFloat64_def del: of_int_sint)
qed

lemma roundPositive_below_one:
  assumes "0 < x" "x < 1"
  shows "roundPositive x \<le> 1"
proof -
  have "binade x < 0"
  proof (rule ccontr)
    assume "\<not> binade x < 0"
    then have "(2::rat) powi 0 \<le> 2 powi binade x"
      by (intro power_int_increasing) auto
    with binade_bounds(1) [OF assms(1)] assms(2) show False by simp
  qed
  then have "(2::rat) powi (binade x + 1) \<le> 2 powi 0"
    by (intro power_int_increasing) auto
  with roundPositive_binade(2) [OF assms(1)] show ?thesis by simp
qed

lemma ceiling_roundPositive_quotient:
  assumes a: "0 < a" "a < 2 ^ 53" and c: "0 < c"
  shows "\<lceil>roundPositive (of_int a / of_int c)\<rceil> = \<lceil>(of_int a :: rat) / of_int c\<rceil>"
proof -
  let ?q = "(of_int a :: rat) / of_int c"
  let ?N = "\<lceil>?q\<rceil>"
  have cpos: "(0::rat) < of_int c" using c by simp
  have q: "0 < ?q" using a c by simp
  have small: "?q / 2 ^ 53 < 1 / of_int c"
  proof -
    have "(of_int a :: rat) < 2 ^ 53"
      using a(2) by (metis of_int_less_iff of_int_numeral of_int_power)
    then have "(of_int a :: rat) / 2 ^ 53 < 1" by simp
    then have "(of_int a :: rat) / 2 ^ 53 / of_int c < 1 / of_int c"
      using cpos by (rule divide_strict_right_mono)
    moreover have "?q / 2 ^ 53 = (of_int a :: rat) / 2 ^ 53 / of_int c"
      by simp
    ultimately show ?thesis by (simp only:)
  qed
  have near: "\<bar>roundPositive ?q - ?q\<bar> \<le> ?q / 2 ^ 53"
    by (rule roundPositive_near [OF q])
  have N1: "of_int ?N - 1 < ?q" and N2: "?q \<le> of_int ?N"
    by linarith+
  \<comment> \<open>the quotient is at least \<open>1/c\<close> above \<open>N - 1\<close>\<close>
  have "(of_int ((?N - 1) * c) :: rat) < of_int a"
    using N1 cpos by (simp add: pos_less_divide_eq)
  then have "(?N - 1) * c < a" by (simp only: of_int_less_iff)
  then have "(?N - 1) * c + 1 \<le> a" by simp
  then have "(of_int ((?N - 1) * c + 1) :: rat) \<le> of_int a" by (simp only: of_int_le_iff)
  then have "(of_int ?N - 1) * of_int c + 1 \<le> (of_int a :: rat)" by simp
  then have "((of_int ?N - 1) * of_int c + 1) / of_int c \<le> ?q"
    using cpos by (simp add: divide_right_mono)
  then have gap_low: "of_int ?N - 1 + 1 / of_int c \<le> ?q"
    using cpos by (simp add: add_divide_distrib)
  have low: "of_int ?N - 1 < roundPositive ?q"
    using near small gap_low by linarith
  have up: "roundPositive ?q \<le> of_int ?N"
  proof (cases "?q = of_int ?N")
    case True
    have Npos: "0 < ?N" using q by simp
    have "?N \<le> a"
    proof -
      have "?q \<le> of_int a"
        using a c by (simp add: pos_divide_le_eq mult_le_cancel_left1)
      then show ?thesis by (simp add: ceiling_le_iff)
    qed
    with a(2) have Nsmall: "?N < 2 ^ 53" by linarith
    have "roundPositive (of_int ?N) = of_int ?N"
      by (rule roundPositive_exact_int [OF Npos Nsmall])
    with True show ?thesis by simp
  next
    case False
    with N2 have "(of_int a :: rat) / of_int c < of_int ?N" by (rule le_neq_trans)
    then have "(of_int a :: rat) < of_int (?N * c)"
      using cpos by (simp add: pos_divide_less_eq)
    then have "a < ?N * c" by (simp only: of_int_less_iff)
    then have "a + 1 \<le> ?N * c" by simp
    then have "(of_int (a + 1) :: rat) \<le> of_int (?N * c)" by (simp only: of_int_le_iff)
    then have "(of_int a + 1 :: rat) \<le> of_int ?N * of_int c" by simp
    then have "(of_int a + 1 :: rat) / of_int c \<le> of_int ?N"
      using cpos by (simp add: pos_divide_le_eq)
    then have "?q + 1 / of_int c \<le> of_int ?N"
      by (simp add: add_divide_distrib)
    with near small show ?thesis by linarith
  qed
  from low up show ?thesis
    by (intro ceiling_unique) auto
qed

subsection \<open>The part count below \<open>2^53\<close>\<close>

text \<open>
  For a total size from 0 up to, not including, \<open>2^53\<close> and any positive chunk size the
  rounding does no harm: the part count is the ceiling of the exact quotient.
\<close>

lemma roundFloat64_positive: "0 < x \<Longrightarrow> roundFloat64 x = roundPositive x"
  by (simp add: roundFloat64_def)

lemma computeParts_exact:
  assumes a0: "0 \<le> sint totalSize" and a53: "sint totalSize < 2 ^ 53"
    and c0: "0 < sint chunk"
  shows "computeParts totalSize chunk =
           Some (word_of_int \<lceil>(of_int (sint totalSize) :: rat) / of_int (sint chunk)\<rceil>)"
proof -
  let ?a = "sint totalSize" and ?c = "sint chunk"
  let ?q = "(of_int ?a :: rat) / of_int ?c"
  let ?B = "float64 chunk"
  have A: "float64 totalSize = of_int ?a"
    by (rule float64_exact [OF a0 a53])
  have cpos: "(0::rat) < of_int ?c" using c0 by (simp del: of_int_sint)
  have Bpos: "0 < ?B"
  proof (cases "?c < 2 ^ 53")
    case True
    with c0 have "?B = of_int ?c" by (intro float64_exact) auto
    with cpos show ?thesis by (simp del: of_int_sint)
  next
    case False
    then have "2 ^ 53 \<le> ?B" by (intro float64_large) auto
    moreover have "(0::rat) < 2 ^ 53" by simp
    ultimately show ?thesis by (rule less_le_trans [rotated])
  qed
  have main: "\<lceil>roundFloat64 (of_int ?a / ?B)\<rceil> = \<lceil>?q\<rceil>"
  proof (cases "?a = 0")
    case True
    then show ?thesis by (simp add: roundFloat64_def del: of_int_sint)
  next
    case False
    with a0 have apos: "0 < ?a" by simp
    then have aq: "(0::rat) < of_int ?a" by (simp del: of_int_sint)
    then have qB: "0 < of_int ?a / ?B" using Bpos by simp
    then have r: "roundFloat64 (of_int ?a / ?B) = roundPositive (of_int ?a / ?B)"
      by (rule roundFloat64_positive)
    show ?thesis
    proof (cases "?c < 2 ^ 53")
      case True
      with c0 have "?B = of_int ?c" by (intro float64_exact) auto
      then show ?thesis
        using ceiling_roundPositive_quotient [OF apos a53 c0] r by (simp del: of_int_sint)
    next
      case False
      then have big: "2 ^ 53 \<le> ?c" by simp
      then have B53: "2 ^ 53 \<le> ?B" by (rule float64_large)
      have a_lt: "(of_int ?a :: rat) < 2 ^ 53"
        using a53 by (metis of_int_less_iff of_int_numeral of_int_power)
      from a_lt B53 have "of_int ?a < ?B" by (rule less_le_trans)
      then have "of_int ?a / ?B < 1" using Bpos by simp
      then have "roundPositive (of_int ?a / ?B) \<le> 1"
        by (rule roundPositive_below_one [OF qB])
      moreover have "0 < roundPositive (of_int ?a / ?B)"
        by (rule roundPositive_pos [OF qB])
      ultimately have lhs: "\<lceil>roundFloat64 (of_int ?a / ?B)\<rceil> = 1"
        unfolding r by (intro ceiling_unique) auto
      have "(of_int ?a :: rat) < of_int ?c"
        using a53 big by (simp only: of_int_less_iff)
      then have "?q < 1" using cpos by simp
      moreover have "0 < ?q" using aq cpos by simp
      ultimately have "\<lceil>?q\<rceil> = 1"
        by (intro ceiling_unique) auto
      with lhs show ?thesis by simp
    qed
  qed
  have q0: "0 \<le> ?q" using a0 c0 by (simp del: of_int_sint)
  then have N0: "0 \<le> \<lceil>?q\<rceil>" by (simp del: of_int_sint)
  have "?q \<le> of_int ?a"
  proof -
    have "(1::rat) \<le> of_int ?c" using c0 by (simp del: of_int_sint)
    moreover have "(0::rat) \<le> of_int ?a" using a0 by (simp del: of_int_sint)
    ultimately have "of_int ?a * 1 \<le> (of_int ?a :: rat) * of_int ?c"
      by (intro mult_left_mono)
    then show ?thesis using cpos by (simp add: pos_divide_le_eq del: of_int_sint)
  qed
  then have "\<lceil>?q\<rceil> \<le> ?a" by (simp add: ceiling_le_iff del: of_int_sint)
  moreover have "(2::int) ^ 53 < 18446744073709551616" by simp
  ultimately have N64: "\<lceil>?q\<rceil> < 18446744073709551616" using a53 by linarith
  have "dropFraction (of_int \<lceil>?q\<rceil>) = \<lceil>?q\<rceil>"
    using N0 by (simp add: dropFraction_def del: of_int_sint)
  then have "uint64OfFloat (of_int \<lceil>?q\<rceil>) = Some (word_of_int \<lceil>?q\<rceil>)"
    using N0 N64 by (simp add: uint64OfFloat_def del: of_int_sint)
  then show ?thesis
    using Bpos main by (simp add: computeParts_def floatDiv_def A del: of_int_sint)
qed

lemma computeParts_zero:
  assumes "0 < sint chunk"
  shows "computeParts 0 chunk = Some 0"
  using computeParts_exact [of 0 chunk] assms by simp


section \<open>Properties of the engine\<close>

subsection \<open>The loops\<close>

lemma uploadFileLoop_done: "IsDone (Status c) \<Longrightarrow> uploadFileLoop c w i = Return (c, w)"
  by (simp add: uploadFileLoop.simps)

lemma uploadFileLoop_result_done:
  "uploadFileLoop c w i = Return (c', w') \<Longrightarrow> IsDone (Status c')"
proof (induction c w i rule: uploadFileLoop.induct)
  case (1 c w i)
  show ?case
  proof (cases "IsDone (Status c)")
    case True
    with "1.prems" show ?thesis by (simp add: uploadFileLoop.simps)
  next
    case False
    with "1.prems" obtain c1 w1 where
      chunk: "uploadChunk c w i = Return (c1, w1)" and
      rest: "uploadFileLoop c1 w1 (i + 1) = Return (c', w')"
      by (subst (asm) uploadFileLoop.simps) (auto split: exec.splits)
    from "1.IH" [OF False chunk refl rest] show ?thesis .
  qed
qed

lemma retryLoop_step:
  assumes "httpRequest w (httpMethod c) (url c) None (id c) buf cr fn = (r, w')"
    and "n < 3"
  shows "retryLoop c buf cr fn (False, body, n) w =
           retryLoop c buf cr fn (\<not> attemptFailed r, fst (snd r), if attemptFailed r then n + 1 else n) w'"
  using assms
  by (subst retryLoop.simps) (auto simp: attemptFailed_def split: prod.splits)

lemma retryLoop_stop_success: "retryLoop c buf cr fn (True, body, n) w = ((True, body, n), w)"
  by (subst retryLoop.simps) simp

lemma retryLoop_stop_exhausted:
  "\<not> n < 3 \<Longrightarrow> retryLoop c buf cr fn (ok, body, n) w = ((ok, body, n), w)"
  by (subst retryLoop.simps) simp

lemma retryLoop_unrolled:
  assumes a1: "httpRequest w (httpMethod c) (url c) None (id c) buf cr fn = (r1, w1)"
    and a2: "httpRequest w1 (httpMethod c) (url c) None (id c) buf cr fn = (r2, w2)"
    and a3: "httpRequest w2 (httpMethod c) (url c) None (id c) buf cr fn = (r3, w3)"
  shows "retryLoop c buf cr fn (False, [], 0) w =
           (if \<not> attemptFailed r1 then ((True, fst (snd r1), 0), w1)
            else if \<not> attemptFailed r2 then ((True, fst (snd r2), 1), w2)
            else if \<not> attemptFailed r3 then ((True, fst (snd r3), 2), w3)
            else ((False, fst (snd r3), 3), w3))"
  by (simp add: retryLoop_step [OF a1] retryLoop_step [OF a2] retryLoop_step [OF a3]
        retryLoop_stop_success retryLoop_stop_exhausted numeral_3_eq_3)

lemma httpRequest_attempts:
  "httpRequest w m u hs sid buf cr fn = (r, w') \<Longrightarrow> attempts w' = Suc (attempts w)"
  by (auto simp: httpRequest_def Let_def split: option.splits response.splits)


text \<open>
  Claim C7. Once \<open>IsDone\<close> is true no chunk is processed any more: the loop of
  \<open>uploadFile\<close> returns at once, with the uploader, and so every field of its status,
  and the world as they are; nothing is read and nothing is sent. The state the loop
  returns is such a state: running the loop on it again, from any index, gives it back
  unchanged.
\<close>

theorem done_status_is_final:
  "(IsDone (Status c) \<longrightarrow> uploadFileLoop c w i = Return (c, w))
   \<and> (uploadFileLoop c w i = Return (c', w') \<longrightarrow>
        IsDone (Status c') \<and> uploadFileLoop c' w' j = Return (c', w'))"
  using uploadFileLoop_done uploadFileLoop_result_done by blast

theorem done_status_is_final_witness:
  "IsDone (Status (uploadDone oneChunk False))
   \<and> chunkStatus (uploadFileLoop (uploadDone oneChunk False) flaky 0)
       = Some \<lparr>Size = 100, SizeTransferred = 0, Parts = 1, PartsTransferred = 0,
                IsDone = True, TransferredException = False\<rparr>
   \<and> chunkStatus (uploadFileLoop (uploadDone oneChunk False) flaky 7)
       = Some \<lparr>Size = 100, SizeTransferred = 0, Parts = 1, PartsTransferred = 0,
                IsDone = True, TransferredException = False\<rparr>"
proof -
  have d: "IsDone (Status (uploadDone oneChunk False))"
    by (simp add: uploadDone_def)
  have st: "Status (uploadDone oneChunk False)
              = \<lparr>Size = 100, SizeTransferred = 0, Parts = 1, PartsTransferred = 0,
                 IsDone = True, TransferredException = False\<rparr>"
    by (simp add: uploadDone_def oneChunk_def)
  from done_status_is_final [of "uploadDone oneChunk False" flaky 0] d
  have first: "uploadFileLoop (uploadDone oneChunk False) flaky 0
                 = Return (uploadDone oneChunk False, flaky)"
    by blast
  from done_status_is_final [of "uploadDone oneChunk False" flaky 0
      "uploadDone oneChunk False" flaky 7] first
  have again: "uploadFileLoop (uploadDone oneChunk False) flaky 7
                 = Return (uploadDone oneChunk False, flaky)"
    by blast
  show ?thesis
    using d first again by (simp add: chunkStatus_def st)
qed

text \<open>
  Claim C6, as amended. The chunk with index \<open>i\<close> has reached its send: it is not the
  index \<open>Parts\<close>, the upload has not failed, the part size is positive and the read of
  the part succeeded. \<open>r1\<close>, \<open>r2\<close> and \<open>r3\<close> are what three successive calls of
  \<open>httpRequest\<close> for this chunk return. Then the retry loop makes the second call only
  when the first attempt failed and the third only when the second failed too, and never
  a fourth; an attempt failed when its \<open>success\<close> is false or its error is not \<open>nil\<close>.
  When the first two attempts fail and the third succeeds with a body that reconciles to
  a delta \<open>n\<close> (an empty body, or one whose \<open>{to}\<close> field parses), the chunk is recorded,
  \<open>PartsTransferred = i + 1\<close>, and the upload goes on with index \<open>i + 1\<close>. When all
  three attempts fail, the upload ends with \<open>IsDone\<close> and \<open>TransferredException\<close> set and
  \<open>PartsTransferred\<close> as it was.
\<close>

theorem retry_policy:
  assumes reach: "i \<noteq> Parts (Status c)" "\<not> TransferredException (Status c)"
      "\<not> IsDone (Status c)"
    and part: "computePartSize (chunkSize c) (Size (Status c)) i = Some partSize"
      "0 < sint partSize"
    and rd: "ReadFull (stream w) partSize = (Inr buf, r)"
    and cr: "cr = generateContentRange i (chunkSize c) partSize (Size (Status c))"
    and fn: "fn = Base (filePath c)"
    and a1: "httpRequest (w\<lparr>stream := r\<rparr>) (httpMethod c) (url c) None (id c) buf cr fn = (r1, w1)"
    and a2: "httpRequest w1 (httpMethod c) (url c) None (id c) buf cr fn = (r2, w2)"
    and a3: "httpRequest w2 (httpMethod c) (url c) None (id c) buf cr fn = (r3, w3)"
  shows "retryLoop c buf cr fn (False, [], 0) (w\<lparr>stream := r\<rparr>) =
           (if \<not> attemptFailed r1 then ((True, fst (snd r1), 0), w1)
            else if \<not> attemptFailed r2 then ((True, fst (snd r2), 1), w2)
            else if \<not> attemptFailed r3 then ((True, fst (snd r3), 2), w3)
            else ((False, fst (snd r3), 3), w3))
         \<and> attempts w1 = attempts w + 1 \<and> attempts w2 = attempts w + 2
         \<and> attempts w3 = attempts w + 3
         \<and> (attemptFailed r1 \<and> attemptFailed r2 \<and> \<not> attemptFailed r3
              \<and> calculateTransferredSize (fst (snd r3)) partSize (Status c) = Return (Inr n)
            \<longrightarrow> uploadChunk c w i =
                  Return (c\<lparr>Status := (Status c)
                            \<lparr>SizeTransferred := SizeTransferred (Status c) + n,
                             PartsTransferred := i + 1\<rparr>\<rparr>, w3)
                \<and> uploadFileLoop c w i =
                    uploadFileLoop (c\<lparr>Status := (Status c)
                            \<lparr>SizeTransferred := SizeTransferred (Status c) + n,
                             PartsTransferred := i + 1\<rparr>\<rparr>) w3 (i + 1))
         \<and> (attemptFailed r1 \<and> attemptFailed r2 \<and> attemptFailed r3
            \<longrightarrow> uploadFileLoop c w i = Return (uploadDone c True, w3)
                \<and> IsDone (Status (uploadDone c True))
                \<and> TransferredException (Status (uploadDone c True))
                \<and> PartsTransferred (Status (uploadDone c True)) = PartsTransferred (Status c))"
proof -
  note loop = retryLoop_unrolled [OF a1 a2 a3]
  have n1: "attempts w1 = attempts w + 1"
    using httpRequest_attempts [OF a1] by simp
  have n2: "attempts w2 = attempts w + 2"
    using httpRequest_attempts [OF a2] n1 by simp
  have n3: "attempts w3 = attempts w + 3"
    using httpRequest_attempts [OF a3] n2 by simp
  have ok: "uploadChunk c w i =
              Return (c\<lparr>Status := (Status c)
                        \<lparr>SizeTransferred := SizeTransferred (Status c) + n,
                         PartsTransferred := i + 1\<rparr>\<rparr>, w3)"
    if "attemptFailed r1" "attemptFailed r2" "\<not> attemptFailed r3"
      "calculateTransferredSize (fst (snd r3)) partSize (Status c) = Return (Inr n)"
    using that reach part rd loop
    by (simp add: uploadChunk_def cr [symmetric] fn [symmetric] checkError_def errorOf_def valueOf_def)
  have bad: "uploadChunk c w i = Return (uploadDone c True, w3)"
    if "attemptFailed r1" "attemptFailed r2" "attemptFailed r3"
    using that reach part rd loop
    by (simp add: uploadChunk_def cr [symmetric] fn [symmetric])
  have proceed: "uploadFileLoop c w i = uploadFileLoop c' w3 (i + 1)"
    if "uploadChunk c w i = Return (c', w3)" for c'
    using that reach by (subst uploadFileLoop.simps) simp
  have stop: "uploadFileLoop c w i = Return (uploadDone c True, w3)"
    if "attemptFailed r1" "attemptFailed r2" "attemptFailed r3"
    using proceed [OF bad [OF that]]
    by (simp add: uploadFileLoop_done uploadDone_def)
  show ?thesis
    using loop n1 n2 n3 ok proceed stop by (simp add: uploadDone_def)
qed

theorem retry_policy_witness:
  "chunkStatus (uploadChunk oneChunk flaky 0)
     = Some \<lparr>Size = 100, SizeTransferred = 100, Parts = 1, PartsTransferred = 1,
              IsDone = False, TransferredException = False\<rparr>
   \<and> chunkStatus (uploadFileLoop oneChunk refusing 0)
     = Some \<lparr>Size = 100, SizeTransferred = 0, Parts = 1, PartsTransferred = 0,
              IsDone = True, TransferredException = True\<rparr>"
proof -
  let ?c = oneChunk
  have reach: "0 \<noteq> Parts (Status ?c)" "\<not> TransferredException (Status ?c)" "\<not> IsDone (Status ?c)"
    by (simp_all add: oneChunk_def)
  have part: "computePartSize (chunkSize ?c) (Size (Status ?c)) 0 = Some 100"
    by code_simp
  have pos: "0 < sint (100 :: int64)" by simp
  have cr: "''bytes 0-100/100'' = generateContentRange 0 (chunkSize ?c) 100 (Size (Status ?c))"
    by code_simp
  have fn: "''.'' = Base (filePath ?c)"
    by code_simp
  have m: "httpMethod ?c = ''POST''" "url ?c = ''http://host/upload''" "id ?c = ''5E551D''"
    by (simp_all add: oneChunk_def)
  have st: "Status ?c = \<lparr>Size = 100, SizeTransferred = 0, Parts = 1, PartsTransferred = 0,
                IsDone = False, TransferredException = False\<rparr>"
    by (simp add: oneChunk_def)
  have *: "httpRequest w (httpMethod ?c) (url ?c) None (id ?c) (replicate 100 0)
             ''bytes 0-100/100'' ''.'' = (fst (attempt w), snd (attempt w))" for w
    by (simp add: attempt_def m)
  have first: "httpRequest (w\<lparr>stream := \<lparr>pending = [], final = EOF\<rparr>\<rparr>) (httpMethod ?c) (url ?c)
                 None (id ?c) (replicate 100 0) ''bytes 0-100/100'' ''.''
               = (fst (attempt (drained w)), snd (attempt (drained w)))" for w
    using * [of "drained w"] by (simp add: drained_def)
  \<comment> \<open>two failures, then a success\<close>
  have rdA: "ReadFull (stream flaky) 100 = (Inr (replicate 100 0), \<lparr>pending = [], final = EOF\<rparr>)"
    by code_simp
  have fA1: "attemptFailed (fst (attempt (drained flaky)))"
    by code_simp
  have fA2: "attemptFailed (fst (attempt (snd (attempt (drained flaky)))))"
    by code_simp
  have fA3: "\<not> attemptFailed (fst (attempt (snd (attempt (snd (attempt (drained flaky)))))))"
    by code_simp
  have recA: "calculateTransferredSize
                (fst (snd (fst (attempt (snd (attempt (snd (attempt (drained flaky))))))))) 100
                (Status ?c) = Return (Inr 100)"
    by code_simp
  have A: "chunkStatus (uploadChunk ?c flaky 0)
             = Some \<lparr>Size = 100, SizeTransferred = 100, Parts = 1, PartsTransferred = 1,
              IsDone = False, TransferredException = False\<rparr>"
    using retry_policy [OF reach part pos rdA cr fn
        first [of flaky]
        * [of "snd (attempt (drained flaky))"]
        * [of "snd (attempt (snd (attempt (drained flaky))))"], of 100]
      fA1 fA2 fA3 recA
    by (simp add: chunkStatus_def st)
  \<comment> \<open>three failures\<close>
  have rdB: "ReadFull (stream refusing) 100 = (Inr (replicate 100 0), \<lparr>pending = [], final = EOF\<rparr>)"
    by code_simp
  have fB1: "attemptFailed (fst (attempt (drained refusing)))"
    by code_simp
  have fB2: "attemptFailed (fst (attempt (snd (attempt (drained refusing)))))"
    by code_simp
  have fB3: "attemptFailed (fst (attempt (snd (attempt (snd (attempt (drained refusing)))))))"
    by code_simp
  have B: "chunkStatus (uploadFileLoop ?c refusing 0)
             = Some \<lparr>Size = 100, SizeTransferred = 0, Parts = 1, PartsTransferred = 0,
              IsDone = True, TransferredException = True\<rparr>"
    using retry_policy [OF reach part pos rdB cr fn
        first [of refusing]
        * [of "snd (attempt (drained refusing))"]
        * [of "snd (attempt (snd (attempt (drained refusing))))"], of 0]
      fB1 fB2 fB3
    by (simp add: chunkStatus_def st uploadDone_def)
  from A B show ?thesis by simp
qed

text \<open>
  Claim C6 as stated fails for a third attempt that succeeds with a body that does not
  reconcile: two answers with status 500, then status 200 with the body \<open>a-b\<close>. The
  retry loop ends with success after three attempts, and the chunk is not recorded: the
  upload ends failed with \<open>PartsTransferred = 0\<close>.
\<close>

theorem retry_policy_counterexample:
  "finalStatus
     (Init (NewUploaderFromReader ''POST'' ''http://host/upload'' 100 None 100 ''5E551D'')
        (worldWith (zeros 100) (firstThen 2 (Responded 500 []) (Responded 200 ''a-b''))))
   = Some \<lparr>Size = 100, SizeTransferred = 0, Parts = 1, PartsTransferred = 0,
            IsDone = True, TransferredException = True\<rparr>
   \<and> attemptsMade
     (Init (NewUploaderFromReader ''POST'' ''http://host/upload'' 100 None 100 ''5E551D'')
        (worldWith (zeros 100) (firstThen 2 (Responded 500 []) (Responded 200 ''a-b''))))
     = Some 3
   \<and> fst (retryLoop oneChunk (replicate 100 0) ''bytes 0-100/100'' ''.'' (False, [], 0)
        (worldWith (zeros 100) (firstThen 2 (Responded 500 []) (Responded 200 ''a-b''))))
     = (True, ''a-b'', 2)"
  by code_simp


subsection \<open>What holds beside the failing inputs\<close>

text \<open>
  The default delta, for an empty body, keeps \<open>SizeTransferred\<close> within \<open>Size\<close>.
\<close>

lemma sint_add_no_overflow:
  fixes a b :: int64
  assumes "- (2 ^ 63) \<le> sint a + sint b" "sint a + sint b < 2 ^ 63"
  shows "sint (a + b) = sint a + sint b"
  using assms by (simp add: sint_word_ariths signed_take_bit_int_eq_self)

lemma sint_sub_no_overflow:
  fixes a b :: int64
  assumes "- (2 ^ 63) \<le> sint a - sint b" "sint a - sint b < 2 ^ 63"
  shows "sint (a - b) = sint a - sint b"
  using assms by (simp add: sint_word_ariths signed_take_bit_int_eq_self)

lemma default_delta_keeps_bound:
  assumes lo: "0 \<le> sint (SizeTransferred st)"
    and hi: "sint (SizeTransferred st) \<le> sint (Size st)"
    and p: "0 \<le> sint partSize"
    and room: "sint partSize + sint (SizeTransferred st) < 2 ^ 63"
  shows "\<exists>d. calculateTransferredSize [] partSize st = Return (Inr d)
           \<and> 0 \<le> sint d
           \<and> sint (SizeTransferred st + d) = sint (SizeTransferred st) + sint d
           \<and> sint (SizeTransferred st + d) \<le> sint (Size st)"
proof -
  have sum: "sint (partSize + SizeTransferred st) = sint partSize + sint (SizeTransferred st)"
    using lo p room by (intro sint_add_no_overflow) auto
  have "sint (Size st) < 2 ^ 63" using sint_lt [of "Size st"] by simp
  then have diff: "sint (Size st - SizeTransferred st) = sint (Size st) - sint (SizeTransferred st)"
    using lo hi by (intro sint_sub_no_overflow) auto
  show ?thesis
  proof (cases "sint (Size st) < sint (partSize + SizeTransferred st)")
    case True
    have "sint (SizeTransferred st + (Size st - SizeTransferred st)) = sint (Size st)"
      by simp
    then show ?thesis
      using True hi diff by (simp add: calculateTransferredSize_def)
  next
    case False
    then show ?thesis
      using p sum by (simp add: calculateTransferredSize_def add.commute)
  qed
qed

text \<open>
  \<open>httpRequest\<close> itself appends every pair of a map it is given, after the four fixed
  headers, with the key in canonical form.
\<close>

lemma foldl_Header_Add:
  "foldl (\<lambda>h (key, val). Header_Add w h key val) h kvs
     = h @ map (\<lambda>(key, val). (canonicalKey w key, val)) kvs"
  by (induction kvs arbitrary: h) (auto simp: Header_Add_def)

lemma httpRequest_adds_given_headers:
  assumes "newRequestError w m u = None"
  shows "sent (snd (httpRequest w m u (Some kvs) sessionID part contentRange fileName))
           = sent w @
             [\<lparr>reqMethod = m, reqURL = u,
               reqHeader =
                 [(canonicalKey w ''Content-Type'', ''application/octet-stream''),
                  (canonicalKey w ''Content-Disposition'',
                     ''attachment; filename='' @ [CHR 0x22] @ fileName @ [CHR 0x22]),
                  (canonicalKey w ''Content-Range'', contentRange),
                  (canonicalKey w ''Session-ID'', sessionID)]
                 @ map (\<lambda>(key, val). (canonicalKey w key, val)) kvs,
               reqBody = part\<rparr>]"
  using assms
  by (simp add: httpRequest_def Let_def foldl_Header_Add Header_Add_def split: response.splits)


text \<open>
  When \<open>Init\<close> returns, its error is set exactly when the file could not be examined or
  opened; nothing was sent then. After the loop has run and returned, the error is \<open>nil\<close>
  and the status is done.
\<close>

lemma Init_error_from_setup_only:
  assumes "Init c w = Return (c', w', err)"
  shows "(err \<noteq> None) =
           (filePath c \<noteq> [] \<and> (isl (stat w (filePath c)) \<or> isl (openFile w (filePath c))))"
    and "err \<noteq> None \<Longrightarrow> w' = w \<and> IsDone (Status c') \<and> TransferredException (Status c')"
    and "err = None \<Longrightarrow> IsDone (Status c')"
  using assms uploadFileLoop_result_done
  by (auto simp: Init_def uploadFile_def checkError_def uploadDone_def
           split: if_splits sum.splits option.splits exec.splits prod.splits)

text \<open>An upload of size 0 with a positive chunk size is done at once, with no part and no failure.\<close>

lemma empty_upload_succeeds_at_once:
  assumes "filePath c = []" "Size (Status c) = 0" "0 < sint (chunkSize c)"
    "\<not> IsDone (Status c)"
  shows "Init c w =
           Return (c\<lparr>Status := (Status c)\<lparr>Parts := 0, IsDone := True,
                                          TransferredException := False\<rparr>\<rparr>, w, None)"
  using assms
  by (simp add: Init_def computeParts_zero uploadFile_def uploadFileLoop.simps uploadChunk_def
        uploadDone_def)

subsection \<open>The part count\<close>

lemma uploadChunk_keeps:
  assumes "uploadChunk c w i = Return (c', w')"
  shows "Parts (Status c') = Parts (Status c) \<and> Size (Status c') = Size (Status c)
           \<and> chunkSize c' = chunkSize c"
  using assms
  by (auto simp: uploadChunk_def uploadDone_def checkError_def
           split: if_splits option.splits prod.splits sum.splits exec.splits)

lemma uploadFileLoop_keeps:
  "uploadFileLoop c w i = Return (c', w') \<Longrightarrow>
     Parts (Status c') = Parts (Status c) \<and> Size (Status c') = Size (Status c)
       \<and> chunkSize c' = chunkSize c"
proof (induction c w i rule: uploadFileLoop.induct)
  case (1 c w i)
  show ?case
  proof (cases "IsDone (Status c)")
    case True
    with "1.prems" show ?thesis by (simp add: uploadFileLoop.simps)
  next
    case False
    with "1.prems" obtain c1 w1 where
      chunk: "uploadChunk c w i = Return (c1, w1)" and
      rest: "uploadFileLoop c1 w1 (i + 1) = Return (c', w')"
      by (subst (asm) uploadFileLoop.simps) (auto split: exec.splits)
    from "1.IH" [OF False chunk refl rest] uploadChunk_keeps [OF chunk]
    show ?thesis by simp
  qed
qed

lemma Init_parts:
  assumes "Init c w = Return (c', w', None)"
  shows "computeParts (Size (Status c')) (chunkSize c') = Some (Parts (Status c'))"
proof -
  from assms obtain c1 w1 n where
    n: "computeParts (Size (Status c1)) (chunkSize c1) = Some n" and
    loop: "uploadFileLoop (c1\<lparr>Status := (Status c1)\<lparr>Parts := n\<rparr>\<rparr>) w1 0 = Return (c', w')"
    by (auto simp: Init_def uploadFile_def
             split: if_splits sum.splits option.splits exec.splits prod.splits)
  from uploadFileLoop_keeps [OF loop] n show ?thesis by simp
qed

lemma empty_file_upload_succeeds_at_once:
  assumes "filePath c \<noteq> []" "stat w (filePath c) = Inr 0" "openFile w (filePath c) = Inr f"
    "0 < sint (chunkSize c)" "\<not> IsDone (Status c)"
  shows "Init c w =
           Return (c\<lparr>Status := (Status c)\<lparr>Size := 0, Parts := 0, IsDone := True,
                                          TransferredException := False\<rparr>\<rparr>,
                   w\<lparr>stream := f\<rparr>, None)"
  using assms
  by (simp add: Init_def computeParts_zero uploadFile_def uploadFileLoop.simps uploadChunk_def
        uploadDone_def)

text \<open>
  Claim C5, as amended. For every total size from 0 up to, not including, \<open>2^53\<close> and
  every positive chunk size the part count that \<open>Init\<close> computes is
  \<open>ceil(totalSize / chunkSize)\<close>, and the \<open>Parts\<close> of the status when \<open>Init\<close> returns
  without error is that count for the size and chunk size of the upload. An upload of
  total size 0, from a stream or from an empty file, returns at once with \<open>Parts = 0\<close>,
  \<open>IsDone\<close> true and \<open>TransferredException\<close> false; the world is as before, but for the
  opened file: nothing is read and no request is sent.
\<close>

theorem part_count_is_ceiling_below_2_53:
  "(0 \<le> sint totalSize \<and> sint totalSize < 2 ^ 53 \<and> 0 < sint chunk \<longrightarrow>
      computeParts totalSize chunk =
        Some (word_of_int \<lceil>(of_int (sint totalSize) :: rat) / of_int (sint chunk)\<rceil>))
   \<and> (Init c w = Return (c', w', None) \<longrightarrow>
        computeParts (Size (Status c')) (chunkSize c') = Some (Parts (Status c')))
   \<and> (0 < sint (chunkSize c) \<and> \<not> IsDone (Status c) \<and> filePath c = []
        \<and> Size (Status c) = 0 \<longrightarrow>
        Init c w =
          Return (c\<lparr>Status := (Status c)\<lparr>Parts := 0, IsDone := True,
                                         TransferredException := False\<rparr>\<rparr>, w, None))
   \<and> (0 < sint (chunkSize c) \<and> \<not> IsDone (Status c) \<and> filePath c \<noteq> []
        \<and> stat w (filePath c) = Inr 0 \<and> openFile w (filePath c) = Inr f \<longrightarrow>
        Init c w =
          Return (c\<lparr>Status := (Status c)\<lparr>Size := 0, Parts := 0, IsDone := True,
                                         TransferredException := False\<rparr>\<rparr>,
                  w\<lparr>stream := f\<rparr>, None))"
  using computeParts_exact [of totalSize chunk] Init_parts [of c w c' w']
    empty_upload_succeeds_at_once [of c w] empty_file_upload_succeeds_at_once [of c w f]
  by blast

theorem part_count_is_ceiling_below_2_53_witness:
  "computeParts 250 100 = Some 3
   \<and> computeParts 0 100 = Some 0
   \<and> finalStatus (Init (NewUploaderFromReader ''POST'' ''http://host/upload'' 0 None 100 ''5E551D'')
        (worldWith (zeros 0) (always (Responded 200 []))))
     = Some \<lparr>Size = 0, SizeTransferred = 0, Parts = 0, PartsTransferred = 0,
              IsDone = True, TransferredException = False\<rparr>
   \<and> sentHeaders (Init (NewUploaderFromReader ''POST'' ''http://host/upload'' 0 None 100 ''5E551D'')
        (worldWith (zeros 0) (always (Responded 200 []))))
     = Some []
   \<and> finalStatus (Init (NewUploaderFromFile ''POST'' ''http://host/upload'' ''/tmp/empty'' None 100
                          ''5E551D'') emptyFile)
     = Some \<lparr>Size = 0, SizeTransferred = 0, Parts = 0, PartsTransferred = 0,
              IsDone = True, TransferredException = False\<rparr>"
proof -
  let ?c = "NewUploaderFromReader ''POST'' ''http://host/upload'' 0 None 100 ''5E551D''"
  let ?d = "NewUploaderFromFile ''POST'' ''http://host/upload'' ''/tmp/empty'' None 100 ''5E551D''"
  let ?w = "worldWith (zeros 0) (always (Responded 200 []))"
  have b: "0 \<le> sint (250 :: int64) \<and> sint (250 :: int64) < 2 ^ 53 \<and> 0 < sint (100 :: int64)"
    by simp
  have "computeParts 250 100 = Some (word_of_int \<lceil>(of_int (sint (250 :: int64)) :: rat)
                                                     / of_int (sint (100 :: int64))\<rceil>)"
    using part_count_is_ceiling_below_2_53 [of 250 100] b by blast
  also have "\<dots> = Some 3" by code_simp
  finally have p1: "computeParts 250 100 = Some 3" .
  have hc: "0 < sint (chunkSize ?c) \<and> \<not> IsDone (Status ?c) \<and> filePath ?c = []
              \<and> Size (Status ?c) = 0"
    by (simp add: NewUploaderFromReader_def createUploader_def)
  have rc: "Init ?c ?w =
              Return (?c\<lparr>Status := (Status ?c)\<lparr>Parts := 0, IsDone := True,
                                              TransferredException := False\<rparr>\<rparr>, ?w, None)"
    using part_count_is_ceiling_below_2_53 [of _ _ ?c ?w] hc by blast
  have p2: "finalStatus (Init ?c ?w)
              = Some \<lparr>Size = 0, SizeTransferred = 0, Parts = 0, PartsTransferred = 0,
                       IsDone = True, TransferredException = False\<rparr>"
    unfolding rc by (simp add: finalStatus_def NewUploaderFromReader_def createUploader_def)
  have p3: "sentHeaders (Init ?c ?w) = Some []"
    unfolding rc by (simp add: sentHeaders_def worldWith_def)
  have p0: "computeParts 0 100 = Some 0"
    using part_count_is_ceiling_below_2_53 [of _ _ ?c ?w "?c\<lparr>Status := (Status ?c)\<lparr>Parts := 0, IsDone := True,
                                              TransferredException := False\<rparr>\<rparr>" ?w] rc
    by (simp add: NewUploaderFromReader_def createUploader_def)
  have hfile: "0 < sint (chunkSize ?d) \<and> \<not> IsDone (Status ?d) \<and> filePath ?d \<noteq> []
              \<and> stat emptyFile (filePath ?d) = Inr 0
              \<and> openFile emptyFile (filePath ?d) = Inr (zeros 0)"
    by (simp add: NewUploaderFromFile_def createUploader_def emptyFile_def)
  have rfile: "Init ?d emptyFile =
              Return (?d\<lparr>Status := (Status ?d)\<lparr>Size := 0, Parts := 0, IsDone := True,
                                              TransferredException := False\<rparr>\<rparr>,
                      emptyFile\<lparr>stream := zeros 0\<rparr>, None)"
    using part_count_is_ceiling_below_2_53 [of _ _ ?d emptyFile _ _ "zeros 0"] hfile by blast
  have p4: "finalStatus (Init ?d emptyFile)
              = Some \<lparr>Size = 0, SizeTransferred = 0, Parts = 0, PartsTransferred = 0,
                       IsDone = True, TransferredException = False\<rparr>"
    unfolding rfile by (simp add: finalStatus_def NewUploaderFromFile_def createUploader_def)
  from p0 p1 p2 p3 p4 show ?thesis by simp
qed

text \<open>
  Claim C5 as stated fails above \<open>2^53\<close>. For total size \<open>2^53 + 1 = 9007199254740993\<close>
  and chunk size 1 the code converts the size to \<open>float64\<close> first, which rounds it to
  \<open>2^53\<close>, and computes \<open>9007199254740992\<close> parts, one less than the ceiling of the
  quotient.
\<close>

theorem part_count_is_ceiling_counterexample:
  "computeParts 9007199254740993 1 = Some 9007199254740992
   \<and> float64 9007199254740993 = 9007199254740992
   \<and> computeParts 9007199254740993 1
       \<noteq> Some (word_of_int \<lceil>(of_int (sint (9007199254740993 :: int64)) :: rat)
                               / of_int (sint (1 :: int64))\<rceil>)"
  by code_simp


subsection \<open>Failing inputs\<close>


text \<open>
  Claim C2 at the failing input. Total size 200, chunk size 100, a server that accepts
  each chunk with status 200 and reports the range it received, \<open>0-99/200\<close> and then
  \<open>100-199/200\<close>. The engine adds the reported \<open>to\<close> as a delta, without the cap of the
  default path: the upload ends successfully with \<open>SizeTransferred = 99 + 199 = 298\<close>,
  above \<open>Size = 200\<close>.
\<close>

theorem transferred_size_exceeds_total:
  "finalStatus
     (Init (NewUploaderFromReader ''POST'' ''http://host/upload'' 200 None 100 ''5E551D'')
        (worldWith (zeros 200)
           (firstThen 1 (Responded 200 ''0-99/200'') (Responded 200 ''100-199/200''))))
   = Some \<lparr>Size = 200, SizeTransferred = 298, Parts = 2, PartsTransferred = 2,
            IsDone = True, TransferredException = False\<rparr>"
  by code_simp

text \<open>
  Claim C3 at the failing input. The uploader is built with the additional header
  \<open>Authorization\<close>; the one request of the upload carries the four fixed headers and
  nothing else, because \<open>uploadChunk\<close> passes no \<open>additionalHeaders\<close> to \<open>httpRequest\<close>.
\<close>

theorem caller_headers_not_sent:
  "sentHeaders
     (Init (NewUploaderFromReader ''POST'' ''http://host/upload'' 100
              (Some [(''Authorization'', ''Bearer token'')]) 100 ''5E551D'')
        (worldWith (zeros 100) (always (Responded 200 []))))
   = Some [[(''Content-Type'', ''application/octet-stream''),
            (''Content-Disposition'', ''attachment; filename='' @ [CHR 0x22] @ ''.'' @ [CHR 0x22]),
            (''Content-Range'', ''bytes 0-100/100''),
            (''Session-ID'', ''5E551D'')]]"
  by code_simp

text \<open>
  Claim C8 at the failing input. One chunk, accepted with status 200 and the body \<open>OK\<close>:
  the reconciliation of that chunk panics, so \<open>Init\<close> does not return \<open>nil\<close>, it does
  not return at all, and no status with \<open>TransferredException\<close> set is left behind.
\<close>

theorem init_panics_on_body_without_separator:
  "panics
     (Init (NewUploaderFromReader ''POST'' ''http://host/upload'' 100 None 100 ''5E551D'')
        (worldWith (zeros 100) (always (Responded 200 ''OK''))))"
  by code_simp

end
